theory Spec2Isabelle
  imports Main "HOL-Library.Word"
begin

section \<open>The load balancer of \<open>balancer/\<close>: data model\<close>

text \<open>
  The Go package \<open>balancer\<close> keeps a fixed slice of backends and one shared counter.
  A \<open>*Backend\<close> is identified here by its position in \<open>lb.backends\<close>: the slice is
  filled once by \<open>NewLoadBalancer\<close> with one fresh allocation per position and is never
  reassigned, so a position and a pointer name the same backend. The field \<open>URL\<close> is
  the address as \<open>URL.String()\<close> prints it.

  \<open>roundRobinCount\<close> and \<open>RequestCount\<close> are \<open>uint64\<close> and are modelled as 64-bit
  words (addition wraps). \<open>failCount\<close> is a Go \<open>int\<close>, taken at its 64-bit size and
  read as a signed value with \<open>sint\<close>; Go defines signed overflow as wrap-around.
  Slice positions and \<open>len\<close> are natural numbers: they are non-negative Go \<open>int\<close>s
  bounded by the length of a slice of pointers, so that \<open>uint64(len(lb.backends))\<close>,
  \<open>int(... % ...)\<close> and \<open>nextIndex + i\<close> are exact. The reverse proxy, the mutexes and
  the logger are not part of the state: the proxy and the HTTP client of the health check
  are parameters of the functions that call them, calls to the logger are left out.
\<close>

type_synonym uint64 = "64 word"
type_synonym go_int = "64 word"

record Backend =
  URL :: string
  IsAdmin :: bool
  IsAlive :: bool
  failCount :: go_int
  RequestCount :: uint64

record LoadBalancer =
  backends :: "Backend list"
  roundRobinCount :: uint64

text \<open>
  What a call can end in besides a backend: \<open>nil\<close> (the spec's NoBackendAvailable) and
  the two run-time panics the expressions of \<open>getBackendForRequest\<close> can raise.
\<close>

datatype route_error = NoBackendAvailable | PanicIndexOutOfRange | PanicDivideByZero

subsection \<open>NewLoadBalancer\<close>

text \<open>
  \<open>url.Parse\<close> is a parameter (\<open>parses\<close> tells whether it succeeds); a failure ends
  the process through \<open>logger.Fatal\<close>, which is the value \<open>None\<close>. The fields not
  named in the composite literal have Go's zero values.
\<close>

definition newBackend :: "nat \<Rightarrow> string \<Rightarrow> Backend" where
  "newBackend i backendURL =
     \<lparr>URL = backendURL, IsAdmin = (i = 0), IsAlive = True, failCount = 0, RequestCount = 0\<rparr>"

definition NewLoadBalancer :: "(string \<Rightarrow> bool) \<Rightarrow> string list \<Rightarrow> LoadBalancer option" where
  "NewLoadBalancer parses backendURLs =
     (if list_all parses backendURLs
      then Some \<lparr>backends = map (\<lambda>(i, u). newBackend i u) (enumerate 0 backendURLs),
                 roundRobinCount = 0\<rparr>
      else None)"

subsection \<open>getBackendForRequest\<close>

text \<open>
  \<open>nextIndex\<close> is \<open>int(c % uint64(len(lb.backends)))\<close> for the counter value \<open>c\<close> that
  \<open>atomic.AddUint64\<close> returns, \<open>scanIndex\<close> is \<open>(nextIndex + i) % len(backends)\<close>.
\<close>

definition nextIndex :: "uint64 \<Rightarrow> nat \<Rightarrow> nat" where
  "nextIndex c n = unat c mod n"

definition scanIndex :: "nat \<Rightarrow> nat \<Rightarrow> nat \<Rightarrow> nat" where
  "scanIndex start i n = (start + i) mod n"

text \<open>The loop \<open>for i := 0; i < len(backends); i++\<close>, entered at \<open>i\<close>.\<close>

function scanBackends :: "Backend list \<Rightarrow> nat \<Rightarrow> nat \<Rightarrow> route_error + nat" where
  "scanBackends bs start i =
     (if i < length bs then
        (if scanIndex start i (length bs) < length bs then
           (if IsAlive (bs ! scanIndex start i (length bs))
            then Inr (scanIndex start i (length bs))
            else scanBackends bs start (Suc i))
         else Inl PanicIndexOutOfRange)
      else Inl NoBackendAvailable)"
  by pat_completeness auto
termination
  by (relation "measure (\<lambda>(bs, start, i). length bs - i)") auto

declare scanBackends.simps [simp del]

text \<open>
  The result is the position of the backend returned, or the way the call ended, with the
  load balancer after the call. In the round-robin branch the counter is incremented
  before the remainder is taken, so a division by zero leaves it incremented.
\<close>

definition getBackendForRequest ::
  "string \<Rightarrow> LoadBalancer \<Rightarrow> (route_error + nat) \<times> LoadBalancer" where
  "getBackendForRequest role lb =
     (if role = ''Admin'' then
        (if 0 < length (backends lb) then
           (if IsAlive (backends lb ! 0) then (Inr 0, lb) else (Inl NoBackendAvailable, lb))
         else (Inl PanicIndexOutOfRange, lb))
      else
        (let c = roundRobinCount lb + 1;
             lb' = lb\<lparr>roundRobinCount := c\<rparr>
         in if length (backends lb) = 0 then (Inl PanicDivideByZero, lb')
            else (scanBackends (backends lb) (nextIndex c (length (backends lb))) 0, lb')))"

subsection \<open>ValidateJWT and ServeHTTP\<close>

text \<open>
  \<open>jwt.ParseWithClaims\<close> with its key function is the parameter \<open>parse\<close>: an error
  message, or the token's \<open>Valid\<close> flag with the role claim. Go errors are their
  messages.
\<close>

type_synonym jwt_parser = "string \<Rightarrow> string + (bool \<times> string)"

definition trimBearer :: "string \<Rightarrow> string" where
  "trimBearer tokenString =
     (if take 7 tokenString = ''Bearer '' then drop 7 tokenString else tokenString)"

definition ValidateJWT :: "jwt_parser \<Rightarrow> string \<Rightarrow> string + string" where
  "ValidateJWT parse tokenString =
     (if tokenString = [] then Inl ''no token provided''
      else (case parse (trimBearer tokenString) of
              Inl err \<Rightarrow> Inl err
            | Inr (valid, role) \<Rightarrow>
                if \<not> valid then Inl ''invalid token''
                else if role \<noteq> ''User'' \<and> role \<noteq> ''Client'' \<and> role \<noteq> ''Admin''
                  then Inl (''invalid role claim: '' @ role)
                else Inr role))"

text \<open>
  What \<open>backend.Proxy.ServeHTTP(w, r)\<close> does with the request is the parameter
  \<open>forward\<close>, by backend position: the round trip fails and the proxy's \<open>ErrorHandler\<close>
  runs, or the backend's response is relayed.
\<close>

record response =
  status :: nat
  body :: string

datatype forward_result = TransportError | Relayed response

type_synonym forwarder = "nat \<Rightarrow> forward_result"

definition digit :: "nat \<Rightarrow> char" where
  "digit n = ''0123456789'' ! n"

fun decimal :: "nat \<Rightarrow> string" where
  "decimal n = (if n < 10 then [digit n] else decimal (n div 10) @ [digit (n mod 10)])"

declare decimal.simps [simp del]

definition errorHandler :: "nat \<Rightarrow> response" where
  "errorHandler backendIndex =
     \<lparr>status = 502, body = ''Backend server '' @ decimal (backendIndex + 1) @ '' is not available''\<rparr>"

definition proxyServeHTTP :: "forwarder \<Rightarrow> nat \<Rightarrow> response" where
  "proxyServeHTTP forward idx =
     (case forward idx of TransportError \<Rightarrow> errorHandler idx | Relayed r \<Rightarrow> r)"

definition addRequestCount :: "nat \<Rightarrow> LoadBalancer \<Rightarrow> LoadBalancer" where
  "addRequestCount idx lb =
     lb\<lparr>backends := (backends lb)
           [idx := (backends lb ! idx)\<lparr>RequestCount := RequestCount (backends lb ! idx) + 1\<rparr>]\<rparr>"

text \<open>
  A panic of the handler is the \<open>Inl\<close> result: \<open>net/http\<close> recovers it and writes no
  response.
\<close>

definition ServeHTTP ::
  "jwt_parser \<Rightarrow> forwarder \<Rightarrow> string \<Rightarrow> LoadBalancer \<Rightarrow> (route_error + response) \<times> LoadBalancer" where
  "ServeHTTP parse forward authorization lb =
     (case ValidateJWT parse authorization of
        Inl err \<Rightarrow> (Inr \<lparr>status = 401, body = ''Invalid or missing JWT token''\<rparr>, lb)
      | Inr role \<Rightarrow>
          (case getBackendForRequest role lb of
             (Inl NoBackendAvailable, lb') \<Rightarrow>
               (Inr \<lparr>status = 503, body = ''No available backend servers''\<rparr>, lb')
           | (Inl PanicIndexOutOfRange, lb') \<Rightarrow> (Inl PanicIndexOutOfRange, lb')
           | (Inl PanicDivideByZero, lb') \<Rightarrow> (Inl PanicDivideByZero, lb')
           | (Inr idx, lb') \<Rightarrow> (Inr (proxyServeHTTP forward idx), addRequestCount idx lb')))"

subsection \<open>HealthCheck\<close>

text \<open>
  \<open>client.Get\<close> is a parameter: for the position and the address probed it gives
  \<open>None\<close> when \<open>err != nil\<close> and the response's status code otherwise. \<open>markDown\<close> and
  \<open>markAlive\<close> are the two locked updates of the loop body, \<open>checkBackend\<close> the body,
  \<open>healthCheckTick\<close> the inner loop of one tick, \<open>HealthCheck\<close> the outer loop over the
  ticks that have arrived so far.
\<close>

type_synonym http_get = "nat \<Rightarrow> string \<Rightarrow> nat option"

definition probeFailed :: "nat option \<Rightarrow> bool" where
  "probeFailed r = (case r of None \<Rightarrow> True | Some code \<Rightarrow> code \<noteq> 200)"

definition markDown :: "Backend \<Rightarrow> Backend" where
  "markDown b = b\<lparr>IsAlive := False, failCount := failCount b + 1\<rparr>"

definition markAlive :: "Backend \<Rightarrow> Backend" where
  "markAlive b = b\<lparr>IsAlive := True, failCount := 0\<rparr>"

definition checkBackend :: "http_get \<Rightarrow> nat \<Rightarrow> Backend \<Rightarrow> Backend" where
  "checkBackend get i b =
     (if probeFailed (get i (URL b @ ''/health'')) then markDown b else markAlive b)"

definition healthCheckTick :: "http_get \<Rightarrow> LoadBalancer \<Rightarrow> LoadBalancer" where
  "healthCheckTick get lb =
     lb\<lparr>backends := map (\<lambda>(i, b). checkBackend get i b) (enumerate 0 (backends lb))\<rparr>"

fun HealthCheck :: "http_get list \<Rightarrow> LoadBalancer \<Rightarrow> LoadBalancer" where
  "HealthCheck [] lb = lb"
| "HealthCheck (get # ticks) lb = HealthCheck ticks (healthCheckTick get lb)"

subsection \<open>GetStats\<close>

record backend_stats =
  stat_url :: string
  stat_isAdmin :: bool
  stat_isAlive :: bool
  stat_failCount :: int
  stat_requestCount :: nat

record stats =
  stat_backends :: "backend_stats list"
  totalRequests :: nat

definition backendStats :: "Backend \<Rightarrow> backend_stats" where
  "backendStats b =
     \<lparr>stat_url = URL b, stat_isAdmin = IsAdmin b, stat_isAlive = IsAlive b,
      stat_failCount = sint (failCount b), stat_requestCount = unat (RequestCount b)\<rparr>"

definition GetStats :: "LoadBalancer \<Rightarrow> stats" where
  "GetStats lb =
     \<lparr>stat_backends = map backendStats (backends lb), totalRequests = unat (roundRobinCount lb)\<rparr>"

subsection \<open>Runs\<close>

text \<open>
  The handler goroutines and the health-check goroutine share the load balancer. A run
  is a list of the events in the order in which they take effect: a request served (with
  its Authorization header and what forwarding it does) or a tick of the health check.
\<close>

datatype event = Request string forwarder | Tick http_get

fun step :: "jwt_parser \<Rightarrow> event \<Rightarrow> LoadBalancer \<Rightarrow> LoadBalancer" where
  "step parse (Request authorization forward) lb = snd (ServeHTTP parse forward authorization lb)"
| "step parse (Tick get) lb = healthCheckTick get lb"

fun run :: "jwt_parser \<Rightarrow> event list \<Rightarrow> LoadBalancer \<Rightarrow> LoadBalancer" where
  "run parse [] lb = lb"
| "run parse (e # es) lb = run parse es (step parse e lb)"

text \<open>
  A request is routed when \<open>getBackendForRequest\<close> hands \<open>ServeHTTP\<close> a backend, and it
  is a round-robin attempt when it passes \<open>ValidateJWT\<close> with a role other than
  \<open>Admin\<close>, so that the call reaches \<open>atomic.AddUint64\<close>.
\<close>

fun routed :: "jwt_parser \<Rightarrow> event \<Rightarrow> LoadBalancer \<Rightarrow> bool" where
  "routed parse (Request authorization forward) lb =
     (case ValidateJWT parse authorization of
        Inl err \<Rightarrow> False
      | Inr role \<Rightarrow> (case fst (getBackendForRequest role lb) of Inl e \<Rightarrow> False | Inr idx \<Rightarrow> True))"
| "routed parse (Tick get) lb = False"

fun routedCount :: "jwt_parser \<Rightarrow> event list \<Rightarrow> LoadBalancer \<Rightarrow> nat" where
  "routedCount parse [] lb = 0"
| "routedCount parse (e # es) lb =
     (if routed parse e lb then 1 else 0) + routedCount parse es (step parse e lb)"

fun roundRobinAttempt :: "jwt_parser \<Rightarrow> event \<Rightarrow> bool" where
  "roundRobinAttempt parse (Request authorization forward) =
     (case ValidateJWT parse authorization of Inl err \<Rightarrow> False | Inr role \<Rightarrow> role \<noteq> ''Admin'')"
| "roundRobinAttempt parse (Tick get) = False"

subsection \<open>The pool invariant\<close>

text \<open>
  \<open>NewLoadBalancer\<close> sets \<open>IsAdmin\<close> on the first backend and on no other, and nothing
  writes the flag afterwards: the designated privileged backend is the one at position 0.
\<close>

definition adminFirst :: "LoadBalancer \<Rightarrow> bool" where
  "adminFirst lb =
     (map IsAdmin (backends lb) = True # replicate (length (backends lb) - 1) False)"

subsection \<open>The routing policy in the words of the specification\<close>

text \<open>
  The non-privileged policy as the specification words it: the start index is the
  incremented cursor modulo the pool size; the backends are examined in index order from
  there, wrapping around the pool once; the first one found alive is returned, and
  NoBackendAvailable if there is none.
\<close>

definition spec_probeOrder :: "nat \<Rightarrow> nat \<Rightarrow> nat list" where
  "spec_probeOrder start n = rotate start [0..<n]"

definition spec_routeNonPrivileged :: "LoadBalancer \<Rightarrow> (route_error + nat) \<times> LoadBalancer" where
  "spec_routeNonPrivileged lb =
     (let cursor = roundRobinCount lb + 1;
          poolSize = length (backends lb);
          start = unat cursor mod poolSize
      in (case find (\<lambda>idx. IsAlive (backends lb ! idx)) (spec_probeOrder start poolSize) of
            None \<Rightarrow> Inl NoBackendAvailable
          | Some idx \<Rightarrow> Inr idx,
          lb\<lparr>roundRobinCount := cursor\<rparr>))"

subsection \<open>A pool of three backends\<close>

text \<open>
  The pool that \<open>main\<close> builds from its default flags, a parser that knows three
  tokens, a forwarder whose backends answer as the ones of the test do, and HTTP clients
  for which every probe fails or succeeds.
\<close>

definition defaultURLs :: "string list" where
  "defaultURLs = [''http://localhost:8081'', ''http://localhost:8082'', ''http://localhost:8083'']"

definition defaultPool :: LoadBalancer where
  "defaultPool =
     \<lparr>backends = [newBackend 0 ''http://localhost:8081'', newBackend 1 ''http://localhost:8082'',
                  newBackend 2 ''http://localhost:8083''],
      roundRobinCount = 0\<rparr>"

definition tokenParse :: jwt_parser where
  "tokenParse t =
     (if t = ''admin-token'' then Inr (True, ''Admin'')
      else if t = ''user-token'' then Inr (True, ''User'')
      else if t = ''client-token'' then Inr (True, ''Client'')
      else Inl ''token contains an invalid number of segments'')"

definition backendsAnswer :: forwarder where
  "backendsAnswer idx = Relayed \<lparr>status = 200, body = ''Response from Backend '' @ decimal (idx + 1)\<rparr>"

definition backendsUnreachable :: forwarder where
  "backendsUnreachable idx = TransportError"

definition probesFail :: http_get where
  "probesFail i u = None"

definition probesSucceed :: http_get where
  "probesSucceed i u = Some 200"

text \<open>
  The same pool after one tick of the health check in which every probe fails, and after
  one in which only the probe of the first backend fails.
\<close>

definition firstProbeFails :: http_get where
  "firstProbeFails i u = (if i = 0 then None else Some 200)"

definition allDownPool :: LoadBalancer where
  "allDownPool = healthCheckTick probesFail defaultPool"

definition adminDownPool :: LoadBalancer where
  "adminDownPool = healthCheckTick firstProbeFails defaultPool"

section \<open>Properties\<close>

subsection \<open>The scan of getBackendForRequest\<close>

lemma scanIndex_less: "0 < n \<Longrightarrow> scanIndex s i n < n"
  by (simp add: scanIndex_def)

lemma nextIndex_less: "0 < n \<Longrightarrow> nextIndex c n < n"
  by (simp add: nextIndex_def)

lemma scan_find:
  "0 < length bs \<Longrightarrow>
   scanBackends bs s i =
     (case find (\<lambda>idx. IsAlive (bs ! idx)) (map (\<lambda>j. scanIndex s j (length bs)) [i..<length bs]) of
        None \<Rightarrow> Inl NoBackendAvailable | Some idx \<Rightarrow> Inr idx)"
proof (induction bs s i rule: scanBackends.induct)
  case (1 bs start i)
  show ?case
  proof (cases "i < length bs")
    case False
    then show ?thesis by (simp add: scanBackends.simps)
  next
    case True
    then have upt: "[i..<length bs] = i # [Suc i..<length bs]"
      by (simp add: upt_conv_Cons)
    have lt: "scanIndex start i (length bs) < length bs"
      using "1.prems" by (rule scanIndex_less)
    show ?thesis
    proof (cases "IsAlive (bs ! scanIndex start i (length bs))")
      case True
      with \<open>i < length bs\<close> lt upt show ?thesis
        by (subst scanBackends.simps) simp
    next
      case False
      with \<open>i < length bs\<close> lt upt "1.IH" "1.prems" show ?thesis
        by (subst scanBackends.simps) simp
    qed
  qed
qed

lemma spec_probeOrder_eq:
  "spec_probeOrder s n = map (\<lambda>j. scanIndex s j n) [0..<n]"
  unfolding spec_probeOrder_def scanIndex_def
  by (rule nth_equalityI) (simp_all add: nth_rotate)

lemma spec_probeOrder_length: "length (spec_probeOrder s n) = n"
  by (simp add: spec_probeOrder_def)

lemma spec_probeOrder_distinct: "distinct (spec_probeOrder s n)"
  by (simp add: spec_probeOrder_def)

lemma spec_probeOrder_set: "set (spec_probeOrder s n) = {0..<n}"
  by (simp add: spec_probeOrder_def)

lemma route_nonadmin_find:
  assumes "role \<noteq> ''Admin''" and "backends lb \<noteq> []"
  shows "fst (getBackendForRequest role lb) =
    (case find (\<lambda>idx. IsAlive (backends lb ! idx))
            (map (\<lambda>j. scanIndex (nextIndex (roundRobinCount lb + 1) (length (backends lb))) j
                        (length (backends lb)))
               [0..<length (backends lb)]) of
       None \<Rightarrow> Inl NoBackendAvailable | Some idx \<Rightarrow> Inr idx)"
  using assms by (simp add: getBackendForRequest_def Let_def scan_find)

lemma route_nonadmin_cases:
  assumes "role \<noteq> ''Admin''" and "backends lb \<noteq> []"
  shows "fst (getBackendForRequest role lb) = Inl NoBackendAvailable \<or>
    (\<exists>idx < length (backends lb).
       fst (getBackendForRequest role lb) = Inr idx \<and> IsAlive (backends lb ! idx))"
proof -
  let ?n = "length (backends lb)"
  let ?P = "\<lambda>idx. IsAlive (backends lb ! idx)"
  let ?xs = "map (\<lambda>j. scanIndex (nextIndex (roundRobinCount lb + 1) ?n) j ?n) [0..<?n]"
  have r: "fst (getBackendForRequest role lb) =
      (case find ?P ?xs of None \<Rightarrow> Inl NoBackendAvailable | Some idx \<Rightarrow> Inr idx)"
    using assms by (rule route_nonadmin_find)
  have n: "0 < ?n" using assms(2) by simp
  show ?thesis
  proof (cases "find ?P ?xs")
    case None
    with r show ?thesis by simp
  next
    case (Some idx)
    then have "idx \<in> set ?xs" and "?P idx"
      by (auto simp: find_Some_iff)
    then have "idx < ?n"
      using scanIndex_less [OF n] by auto
    with r Some \<open>?P idx\<close> show ?thesis by simp
  qed
qed

lemma scan_order_rotate:
  "map (\<lambda>j. scanIndex s j n) [0..<n] = rotate s [0..<n]"
  unfolding scanIndex_def
  by (rule nth_equalityI) (simp_all add: nth_rotate)

lemma scan_order_set: "set (map (\<lambda>j. scanIndex s j n) [0..<n]) = {0..<n}"
  by (simp only: scan_order_rotate set_rotate set_upt)

lemma route_nonadmin_none:
  assumes "role \<noteq> ''Admin''" and "backends lb \<noteq> []"
  shows "(fst (getBackendForRequest role lb) = Inl NoBackendAvailable) =
         (\<forall>b \<in> set (backends lb). \<not> IsAlive b)"
proof -
  let ?n = "length (backends lb)"
  let ?P = "\<lambda>idx. IsAlive (backends lb ! idx)"
  let ?xs = "map (\<lambda>j. scanIndex (nextIndex (roundRobinCount lb + 1) ?n) j ?n) [0..<?n]"
  have r: "fst (getBackendForRequest role lb) =
      (case find ?P ?xs of None \<Rightarrow> Inl NoBackendAvailable | Some idx \<Rightarrow> Inr idx)"
    using assms by (rule route_nonadmin_find)
  have "(fst (getBackendForRequest role lb) = Inl NoBackendAvailable) = (find ?P ?xs = None)"
    by (simp add: r split: option.splits)
  also have "\<dots> = (\<forall>idx \<in> set ?xs. \<not> ?P idx)"
    by (auto simp only: find_None_iff)
  also have "\<dots> = (\<forall>idx < ?n. \<not> ?P idx)"
    by (simp only: scan_order_set) auto
  also have "\<dots> = (\<forall>b \<in> set (backends lb). \<not> IsAlive b)"
    by (simp add: all_set_conv_all_nth)
  finally show ?thesis .
qed

lemma route_admin:
  assumes "backends lb \<noteq> []"
  shows "fst (getBackendForRequest ''Admin'' lb) =
    (if IsAlive (backends lb ! 0) then Inr 0 else Inl NoBackendAvailable)"
  using assms by (simp add: getBackendForRequest_def)

lemma route_selected_alive:
  assumes "backends lb \<noteq> []" and "fst (getBackendForRequest role lb) = Inr idx"
  shows "idx < length (backends lb) \<and> IsAlive (backends lb ! idx)"
proof (cases "role = ''Admin''")
  case True
  with assms show ?thesis by (auto simp: route_admin split: if_splits)
next
  case False
  with route_nonadmin_cases [OF False assms(1)] assms(2) show ?thesis by auto
qed

subsection \<open>The health check\<close>

lemma tick_length: "length (backends (healthCheckTick get lb)) = length (backends lb)"
  by (simp add: healthCheckTick_def)

lemma tick_nth:
  "i < length (backends lb) \<Longrightarrow>
   backends (healthCheckTick get lb) ! i = checkBackend get i (backends lb ! i)"
  by (simp add: healthCheckTick_def nth_enumerate_eq)

lemma tick_cursor: "roundRobinCount (healthCheckTick get lb) = roundRobinCount lb"
  by (simp add: healthCheckTick_def)

lemma checkBackend_URL: "URL (checkBackend get i b) = URL b"
  by (simp add: checkBackend_def markDown_def markAlive_def)

lemma checkBackend_IsAdmin: "IsAdmin (checkBackend get i b) = IsAdmin b"
  by (simp add: checkBackend_def markDown_def markAlive_def)

lemma HealthCheck_length: "length (backends (HealthCheck ticks lb)) = length (backends lb)"
  by (induction ticks arbitrary: lb) (simp_all add: tick_length)

lemma HealthCheck_URL:
  "i < length (backends lb) \<Longrightarrow> URL (backends (HealthCheck ticks lb) ! i) = URL (backends lb ! i)"
  by (induction ticks arbitrary: lb) (simp_all add: tick_length tick_nth checkBackend_URL)

lemma HealthCheck_failures:
  assumes "i < length (backends lb)"
    and "\<forall>get \<in> set ticks. probeFailed (get i (URL (backends lb ! i) @ ''/health''))"
  shows "failCount (backends (HealthCheck ticks lb) ! i) =
           failCount (backends lb ! i) + of_nat (length ticks)
         \<and> (ticks \<noteq> [] \<longrightarrow> \<not> IsAlive (backends (HealthCheck ticks lb) ! i))"
  using assms
proof (induction ticks arbitrary: lb rule: rev_induct)
  case Nil
  then show ?case by simp
next
  case (snoc get ticks)
  have app: "HealthCheck (ticks @ [get]) lb = healthCheckTick get (HealthCheck ticks lb)" for lb
    by (induction ticks arbitrary: lb) simp_all
  let ?lb = "HealthCheck ticks lb"
  have i: "i < length (backends ?lb)"
    using snoc.prems(1) by (simp add: HealthCheck_length)
  have u: "URL (backends ?lb ! i) = URL (backends lb ! i)"
    using snoc.prems(1) by (rule HealthCheck_URL)
  have f: "probeFailed (get i (URL (backends ?lb ! i) @ ''/health''))"
    using snoc.prems(2) u by simp
  have ih: "failCount (backends ?lb ! i) = failCount (backends lb ! i) + of_nat (length ticks)"
    using snoc.IH [of lb] snoc.prems by simp
  have "backends (healthCheckTick get ?lb) ! i = markDown (backends ?lb ! i)"
    using i f by (simp add: tick_nth checkBackend_def)
  with ih show ?case
    by (simp add: app markDown_def)
qed

lemma tick_success:
  assumes "i < length (backends lb)"
    and "\<not> probeFailed (get i (URL (backends lb ! i) @ ''/health''))"
  shows "IsAlive (backends (healthCheckTick get lb) ! i) \<and>
         failCount (backends (healthCheckTick get lb) ! i) = 0"
  using assms by (simp add: tick_nth checkBackend_def markAlive_def)

lemma sint_of_nat_small: "n < 2 ^ 63 \<Longrightarrow> sint (of_nat n :: 64 word) = int n"
  by (simp add: signed_of_nat signed_take_bit_int_eq_self)

subsection \<open>What routing and serving leave unchanged\<close>

lemma route_backends: "backends (snd (getBackendForRequest role lb)) = backends lb"
  by (simp add: getBackendForRequest_def Let_def)

lemma route_cursor:
  "roundRobinCount (snd (getBackendForRequest role lb)) =
     (if role = ''Admin'' then roundRobinCount lb else roundRobinCount lb + 1)"
  by (simp add: getBackendForRequest_def Let_def)

lemma addRequestCount_cursor: "roundRobinCount (addRequestCount idx lb) = roundRobinCount lb"
  by (simp add: addRequestCount_def)

lemma addRequestCount_length: "length (backends (addRequestCount idx lb)) = length (backends lb)"
  by (simp add: addRequestCount_def)

lemma addRequestCount_nth:
  "i < length (backends lb) \<Longrightarrow>
   backends (addRequestCount idx lb) ! i =
     (if i = idx then (backends lb ! i)\<lparr>RequestCount := RequestCount (backends lb ! i) + 1\<rparr>
      else backends lb ! i)"
  by (simp add: addRequestCount_def nth_list_update)

lemma addRequestCount_map:
  assumes "\<And>b c. f (b\<lparr>RequestCount := c\<rparr>) = f b"
  shows "map f (backends (addRequestCount idx lb)) = map f (backends lb)"
  by (rule nth_equalityI) (simp_all add: addRequestCount_length addRequestCount_nth assms)

lemma ServeHTTP_state:
  "snd (ServeHTTP parse forward authorization lb) =
     (case ValidateJWT parse authorization of
        Inl err \<Rightarrow> lb
      | Inr role \<Rightarrow>
          (case fst (getBackendForRequest role lb) of
             Inl e \<Rightarrow> snd (getBackendForRequest role lb)
           | Inr idx \<Rightarrow> addRequestCount idx (snd (getBackendForRequest role lb))))"
  by (simp add: ServeHTTP_def split: sum.splits prod.splits route_error.splits)

lemma ServeHTTP_result:
  "fst (ServeHTTP parse forward authorization lb) =
     (case ValidateJWT parse authorization of
        Inl err \<Rightarrow> Inr \<lparr>status = 401, body = ''Invalid or missing JWT token''\<rparr>
      | Inr role \<Rightarrow>
          (case fst (getBackendForRequest role lb) of
             Inl NoBackendAvailable \<Rightarrow> Inr \<lparr>status = 503, body = ''No available backend servers''\<rparr>
           | Inl PanicIndexOutOfRange \<Rightarrow> Inl PanicIndexOutOfRange
           | Inl PanicDivideByZero \<Rightarrow> Inl PanicDivideByZero
           | Inr idx \<Rightarrow> Inr (proxyServeHTTP forward idx)))"
  by (simp add: ServeHTTP_def split: sum.splits prod.splits route_error.splits)

lemma ServeHTTP_map:
  assumes "\<And>b c. f (b\<lparr>RequestCount := c\<rparr>) = f b"
  shows "map f (backends (snd (ServeHTTP parse forward authorization lb))) = map f (backends lb)"
proof -
  have "map f (backends (addRequestCount idx lb')) = map f (backends lb')" for idx lb'
    using assms by (rule addRequestCount_map)
  then show ?thesis
    by (simp add: ServeHTTP_state route_backends split: sum.splits)
qed

lemma ServeHTTP_cursor:
  "roundRobinCount (snd (ServeHTTP parse forward authorization lb)) =
     (case ValidateJWT parse authorization of
        Inl err \<Rightarrow> roundRobinCount lb
      | Inr role \<Rightarrow> if role = ''Admin'' then roundRobinCount lb else roundRobinCount lb + 1)"
  by (simp add: ServeHTTP_state addRequestCount_cursor route_cursor split: sum.splits)

lemma step_cursor:
  "roundRobinCount (step parse e lb) =
     roundRobinCount lb + (if roundRobinAttempt parse e then 1 else 0)"
  by (cases e) (simp_all add: ServeHTTP_cursor tick_cursor split: sum.splits)

lemma run_cursor:
  "roundRobinCount (run parse es lb) =
     roundRobinCount lb + of_nat (length (filter (roundRobinAttempt parse) es))"
  by (induction es arbitrary: lb) (simp_all add: step_cursor)

subsection \<open>The pool invariant holds in every run\<close>

lemma adminFirst_nonempty: "adminFirst lb \<Longrightarrow> backends lb \<noteq> []"
  by (auto simp: adminFirst_def)

lemma adminFirst_zero: "adminFirst lb \<Longrightarrow> IsAdmin (backends lb ! 0)"
  by (cases "backends lb") (auto simp: adminFirst_def)

lemma NewLoadBalancer_adminFirst:
  assumes "NewLoadBalancer parses urls = Some lb" and "urls \<noteq> []"
  shows "adminFirst lb"
proof -
  from assms(1) have bs: "backends lb = map (\<lambda>(i, u). newBackend i u) (enumerate 0 urls)"
    by (auto simp: NewLoadBalancer_def split: if_splits)
  have "map IsAdmin (backends lb) = True # replicate (length urls - 1) False"
  proof (rule nth_equalityI)
    show "length (map IsAdmin (backends lb)) = length (True # replicate (length urls - 1) False)"
      using assms(2) by (simp add: bs)
  next
    fix i assume "i < length (map IsAdmin (backends lb))"
    then have "i < length urls" by (simp add: bs)
    then show "map IsAdmin (backends lb) ! i = (True # replicate (length urls - 1) False) ! i"
      by (cases i) (simp_all add: bs nth_enumerate_eq newBackend_def)
  qed
  then show ?thesis by (simp add: adminFirst_def bs)
qed

lemma step_adminFirst: "adminFirst lb \<Longrightarrow> adminFirst (step parse e lb)"
proof (cases e)
  case (Request a f)
  assume "adminFirst lb"
  moreover have "map IsAdmin (backends (step parse e lb)) = map IsAdmin (backends lb)"
    using Request by (simp add: ServeHTTP_map)
  moreover from this have "length (backends (step parse e lb)) = length (backends lb)"
    by (metis length_map)
  ultimately show ?thesis by (simp add: adminFirst_def)
next
  case (Tick get)
  assume "adminFirst lb"
  moreover have "map IsAdmin (backends (step parse e lb)) = map IsAdmin (backends lb)"
    using Tick by (intro nth_equalityI) (simp_all add: tick_length tick_nth checkBackend_IsAdmin)
  moreover from this have "length (backends (step parse e lb)) = length (backends lb)"
    by (metis length_map)
  ultimately show ?thesis by (simp add: adminFirst_def)
qed

lemma run_adminFirst: "adminFirst lb \<Longrightarrow> adminFirst (run parse es lb)"
  by (induction es arbitrary: lb) (simp_all add: step_adminFirst)

lemma defaultPool_new: "NewLoadBalancer (\<lambda>u. True) defaultURLs = Some defaultPool"
  by (simp add: NewLoadBalancer_def defaultURLs_def defaultPool_def enumerate_eq_zip upt_rec newBackend_def)


section \<open>The claims of the specification\<close>

text \<open>
  C1. A request with the role \<open>Admin\<close> gets the designated privileged backend (the one at
  position 0, the only one with \<open>IsAdmin\<close>) exactly when that backend's \<open>IsAlive\<close> is
  true; when it is false the result is NoBackendAvailable; no other backend is ever
  returned.
\<close>

theorem privileged_route:
  assumes "adminFirst lb"
  shows "IsAdmin (backends lb ! 0)
    \<and> (fst (getBackendForRequest ''Admin'' lb) = Inr 0) = IsAlive (backends lb ! 0)
    \<and> (\<not> IsAlive (backends lb ! 0) \<longrightarrow>
         fst (getBackendForRequest ''Admin'' lb) = Inl NoBackendAvailable)
    \<and> (\<forall>idx. fst (getBackendForRequest ''Admin'' lb) = Inr idx \<longrightarrow> idx = 0)"
proof -
  from assms have "backends lb \<noteq> []" by (rule adminFirst_nonempty)
  then have "getBackendForRequest ''Admin'' lb =
      (if IsAlive (backends lb ! 0) then (Inr 0, lb) else (Inl NoBackendAvailable, lb))"
    by (simp add: getBackendForRequest_def)
  with adminFirst_zero [OF assms] show ?thesis by simp
qed

theorem privileged_route_witness:
  "adminFirst defaultPool \<and> IsAlive (backends defaultPool ! 0)
   \<and> fst (getBackendForRequest ''Admin'' defaultPool) = Inr 0
   \<and> IsAdmin (backends defaultPool ! 0)"
proof -
  have h: "adminFirst defaultPool"
    by (simp add: adminFirst_def defaultPool_def newBackend_def)
  have a: "IsAlive (backends defaultPool ! 0)"
    by (simp add: defaultPool_def newBackend_def)
  from privileged_route [OF h] a h show ?thesis by simp
qed

text \<open>
  C2. For a role other than \<open>Admin\<close> and a pool of at least one backend,
  \<open>getBackendForRequest\<close> is the policy of the specification: the cursor is incremented,
  the start index is the new cursor modulo the pool size, the backends are examined in
  index order from there with one wrap around the pool, the first one alive is returned,
  and NoBackendAvailable when none is.
\<close>

theorem nonprivileged_route:
  assumes "role \<noteq> ''Admin''" and "backends lb \<noteq> []"
  shows "getBackendForRequest role lb = spec_routeNonPrivileged lb"
  using assms
  by (simp add: getBackendForRequest_def spec_routeNonPrivileged_def Let_def scan_find
      spec_probeOrder_eq nextIndex_def)

theorem nonprivileged_route_witness:
  "''User'' \<noteq> ''Admin'' \<and> backends defaultPool \<noteq> []
   \<and> getBackendForRequest ''User'' defaultPool = spec_routeNonPrivileged defaultPool
   \<and> fst (spec_routeNonPrivileged defaultPool) = Inr 1"
proof -
  have r: "''User'' \<noteq> ''Admin''" by simp
  have n: "backends defaultPool \<noteq> []" by (simp add: defaultPool_def)
  have v: "fst (spec_routeNonPrivileged defaultPool) = Inr 1"
    by (simp add: spec_routeNonPrivileged_def spec_probeOrder_def defaultPool_def newBackend_def
        Let_def upt_rec rotate_def rotate1_def)
  from nonprivileged_route [OF r n] r n v show ?thesis by simp
qed

text \<open>
  The round-robin scan runs over the whole pool. With the three backends alive and the
  cursor at 2, a \<open>User\<close> request is given the backend at position 0, which is the
  privileged one.
\<close>

theorem round_robin_reaches_privileged_backend:
  "fst (getBackendForRequest ''User'' (defaultPool\<lparr>roundRobinCount := 2\<rparr>)) = Inr 0
   \<and> IsAdmin (backends (defaultPool\<lparr>roundRobinCount := 2\<rparr>) ! 0)
   \<and> adminFirst (defaultPool\<lparr>roundRobinCount := 2\<rparr>)"
  by (simp add: getBackendForRequest_def Let_def nextIndex_def scanIndex_def defaultPool_def
      newBackend_def adminFirst_def scanBackends.simps)

text \<open>
  C3, as the code has it. For a role other than \<open>Admin\<close> the round-robin selection runs
  over all backends of the pool, the privileged one included: a backend that is returned
  is in the pool and alive, and when the backend at the start index is alive it is the
  one returned, whichever backend it is.
\<close>

theorem nonprivileged_route_alive:
  assumes "role \<noteq> ''Admin''" and "backends lb \<noteq> []"
  shows "(\<forall>idx. fst (getBackendForRequest role lb) = Inr idx \<longrightarrow>
            idx < length (backends lb) \<and> IsAlive (backends lb ! idx))
    \<and> (IsAlive (backends lb ! nextIndex (roundRobinCount lb + 1) (length (backends lb))) \<longrightarrow>
         fst (getBackendForRequest role lb) =
           Inr (nextIndex (roundRobinCount lb + 1) (length (backends lb))))"
proof (intro conjI allI impI)
  fix idx
  assume "fst (getBackendForRequest role lb) = Inr idx"
  with route_nonadmin_cases [OF assms]
  show "idx < length (backends lb)" and "IsAlive (backends lb ! idx)"
    by auto
next
  let ?n = "length (backends lb)"
  let ?s = "nextIndex (roundRobinCount lb + 1) ?n"
  assume alive: "IsAlive (backends lb ! ?s)"
  have n: "0 < ?n" using assms(2) by simp
  then have s: "?s < ?n" by (rule nextIndex_less)
  then have "scanIndex ?s 0 ?n = ?s" by (simp add: scanIndex_def)
  with alive s n have "scanBackends (backends lb) ?s 0 = Inr ?s"
    by (subst scanBackends.simps) simp
  with assms show "fst (getBackendForRequest role lb) = Inr ?s"
    by (simp add: getBackendForRequest_def Let_def)
qed

theorem nonprivileged_route_alive_witness:
  "''Client'' \<noteq> ''Admin'' \<and> backends (defaultPool\<lparr>roundRobinCount := 5\<rparr>) \<noteq> []
   \<and> nextIndex (5 + 1) (length (backends defaultPool)) = 0
   \<and> IsAlive (backends defaultPool ! 0)
   \<and> fst (getBackendForRequest ''Client'' (defaultPool\<lparr>roundRobinCount := 5\<rparr>)) = Inr 0"
proof -
  let ?lb = "defaultPool\<lparr>roundRobinCount := 5\<rparr>"
  have r: "''Client'' \<noteq> ''Admin''" by simp
  have n: "backends ?lb \<noteq> []" by (simp add: defaultPool_def)
  have s: "nextIndex (5 + 1) (length (backends defaultPool)) = 0"
    by (simp add: nextIndex_def defaultPool_def)
  have a: "IsAlive (backends defaultPool ! 0)"
    by (simp add: defaultPool_def newBackend_def)
  from nonprivileged_route_alive [OF r n] s a have
    "fst (getBackendForRequest ''Client'' ?lb) = Inr 0" by simp
  with r n s a show ?thesis by simp
qed

text \<open>
  C4. The claim is that the \<open>totalRequests\<close> of \<open>GetStats\<close> is the number of requests
  that were routed to a backend. \<open>GetStats\<close> reports the round-robin cursor under that
  name, and the cursor is not a count of the routed requests. Three \<open>Admin\<close> requests to
  the fresh pool are all routed to backend 1 (each is answered with status 200, and the
  backend's \<open>RequestCount\<close> is 3 afterwards) while \<open>totalRequests\<close> is still 0; one
  \<open>User\<close> request to the pool with every backend down is not routed (the answer is 503)
  and \<open>totalRequests\<close> is 1 afterwards.
\<close>

theorem totalRequests_misses_routed_requests:
  "routedCount tokenParse
     [Request ''Bearer admin-token'' backendsAnswer, Request ''Bearer admin-token'' backendsAnswer,
      Request ''Bearer admin-token'' backendsAnswer] defaultPool = 3
   \<and> map RequestCount (backends (run tokenParse
       [Request ''Bearer admin-token'' backendsAnswer, Request ''Bearer admin-token'' backendsAnswer,
        Request ''Bearer admin-token'' backendsAnswer] defaultPool)) = [3, 0, 0]
   \<and> totalRequests (GetStats (run tokenParse
       [Request ''Bearer admin-token'' backendsAnswer, Request ''Bearer admin-token'' backendsAnswer,
        Request ''Bearer admin-token'' backendsAnswer] defaultPool)) = 0
   \<and> fst (ServeHTTP tokenParse backendsAnswer ''Bearer admin-token'' defaultPool) =
        Inr \<lparr>status = 200, body = ''Response from Backend 1''\<rparr>
   \<and> routedCount tokenParse [Request ''Bearer user-token'' backendsAnswer] allDownPool = 0
   \<and> totalRequests (GetStats (run tokenParse
       [Request ''Bearer user-token'' backendsAnswer] allDownPool)) = 1
   \<and> fst (ServeHTTP tokenParse backendsAnswer ''Bearer user-token'' allDownPool) =
        Inr \<lparr>status = 503, body = ''No available backend servers''\<rparr>"
proof -
  have admin: "routedCount tokenParse
     [Request ''Bearer admin-token'' backendsAnswer, Request ''Bearer admin-token'' backendsAnswer,
      Request ''Bearer admin-token'' backendsAnswer] defaultPool = 3
   \<and> map RequestCount (backends (run tokenParse
       [Request ''Bearer admin-token'' backendsAnswer, Request ''Bearer admin-token'' backendsAnswer,
        Request ''Bearer admin-token'' backendsAnswer] defaultPool)) = [3, 0, 0]
   \<and> totalRequests (GetStats (run tokenParse
       [Request ''Bearer admin-token'' backendsAnswer, Request ''Bearer admin-token'' backendsAnswer,
        Request ''Bearer admin-token'' backendsAnswer] defaultPool)) = 0
   \<and> fst (ServeHTTP tokenParse backendsAnswer ''Bearer admin-token'' defaultPool) =
        Inr \<lparr>status = 200, body = ''Response from Backend 1''\<rparr>"
    by (simp add: ServeHTTP_def ValidateJWT_def trimBearer_def tokenParse_def
        getBackendForRequest_def defaultPool_def newBackend_def GetStats_def addRequestCount_def
        proxyServeHTTP_def backendsAnswer_def decimal.simps digit_def)
  have down: "routedCount tokenParse [Request ''Bearer user-token'' backendsAnswer] allDownPool = 0
   \<and> totalRequests (GetStats (run tokenParse
       [Request ''Bearer user-token'' backendsAnswer] allDownPool)) = 1
   \<and> fst (ServeHTTP tokenParse backendsAnswer ''Bearer user-token'' allDownPool) =
        Inr \<lparr>status = 503, body = ''No available backend servers''\<rparr>"
    by (simp add: ServeHTTP_def ValidateJWT_def trimBearer_def tokenParse_def
        getBackendForRequest_def Let_def nextIndex_def scanIndex_def scanBackends.simps
        allDownPool_def healthCheckTick_def defaultPool_def checkBackend_def probesFail_def
        probeFailed_def markDown_def newBackend_def GetStats_def enumerate_eq_zip upt_rec)
  from admin down show ?thesis by simp
qed

text \<open>
  C5. For a backend whose failure counter is 0, after \<open>N\<close> ticks of the health check
  in each of which its probe fails, the counter is \<open>N\<close> (as a Go \<open>int\<close>: the 64-bit
  value of \<open>N\<close>, which is the number \<open>N\<close> itself below \<open>2^63\<close>) and, when \<open>N > 0\<close>,
  \<open>IsAlive\<close> is false; one tick in which the probe succeeds then sets \<open>IsAlive\<close> to
  true and the counter to 0.
\<close>

theorem failed_probes_counted:
  assumes "i < length (backends lb)"
    and "failCount (backends lb ! i) = 0"
    and "\<forall>get \<in> set ticks. probeFailed (get i (URL (backends lb ! i) @ ''/health''))"
  shows "failCount (backends (HealthCheck ticks lb) ! i) = of_nat (length ticks)
    \<and> (length ticks < 2 ^ 63 \<longrightarrow>
         sint (failCount (backends (HealthCheck ticks lb) ! i)) = int (length ticks))
    \<and> (ticks \<noteq> [] \<longrightarrow> \<not> IsAlive (backends (HealthCheck ticks lb) ! i))
    \<and> (\<forall>get. \<not> probeFailed (get i (URL (backends lb ! i) @ ''/health'')) \<longrightarrow>
          IsAlive (backends (healthCheckTick get (HealthCheck ticks lb)) ! i)
          \<and> failCount (backends (healthCheckTick get (HealthCheck ticks lb)) ! i) = 0)"
proof -
  let ?lb = "HealthCheck ticks lb"
  have f: "failCount (backends ?lb ! i) = of_nat (length ticks)"
    and d: "ticks \<noteq> [] \<longrightarrow> \<not> IsAlive (backends ?lb ! i)"
    using HealthCheck_failures [OF assms(1) assms(3)] assms(2) by simp_all
  have s: "length ticks < 2 ^ 63 \<longrightarrow> sint (failCount (backends ?lb ! i)) = int (length ticks)"
    using f by (simp add: sint_of_nat_small)
  have i: "i < length (backends ?lb)"
    using assms(1) by (simp add: HealthCheck_length)
  have u: "URL (backends ?lb ! i) = URL (backends lb ! i)"
    using assms(1) by (rule HealthCheck_URL)
  have a: "\<forall>get. \<not> probeFailed (get i (URL (backends lb ! i) @ ''/health'')) \<longrightarrow>
      IsAlive (backends (healthCheckTick get ?lb) ! i)
      \<and> failCount (backends (healthCheckTick get ?lb) ! i) = 0"
    using tick_success [OF i] u by simp
  from f s d a show ?thesis by blast
qed

theorem failed_probes_counted_witness:
  "1 < length (backends defaultPool) \<and> failCount (backends defaultPool ! 1) = 0
   \<and> probeFailed (probesFail 1 (URL (backends defaultPool ! 1) @ ''/health''))
   \<and> sint (failCount (backends (HealthCheck [probesFail, probesFail, probesFail] defaultPool) ! 1)) = 3
   \<and> \<not> IsAlive (backends (HealthCheck [probesFail, probesFail, probesFail] defaultPool) ! 1)
   \<and> \<not> probeFailed (probesSucceed 1 (URL (backends defaultPool ! 1) @ ''/health''))
   \<and> IsAlive (backends (healthCheckTick probesSucceed
        (HealthCheck [probesFail, probesFail, probesFail] defaultPool)) ! 1)
   \<and> failCount (backends (healthCheckTick probesSucceed
        (HealthCheck [probesFail, probesFail, probesFail] defaultPool)) ! 1) = 0"
proof -
  let ?ticks = "[probesFail, probesFail, probesFail]"
  have h1: "1 < length (backends defaultPool)" by (simp add: defaultPool_def)
  have h2: "failCount (backends defaultPool ! 1) = 0" by (simp add: defaultPool_def newBackend_def)
  have h3: "\<forall>get \<in> set ?ticks. probeFailed (get 1 (URL (backends defaultPool ! 1) @ ''/health''))"
    by (simp add: probesFail_def probeFailed_def)
  have h4: "\<not> probeFailed (probesSucceed 1 (URL (backends defaultPool ! 1) @ ''/health''))"
    by (simp add: probesSucceed_def probeFailed_def)
  have l: "length ?ticks < 2 ^ 63" by simp
  have h5: "probeFailed (probesFail 1 (URL (backends defaultPool ! 1) @ ''/health''))"
    by (simp add: probesFail_def probeFailed_def)
  from failed_probes_counted [OF h1 h2 h3] l h4 h1 h2 h5 show ?thesis
    by simp
qed

text \<open>
  \<open>markDown\<close> is not idempotent: on a fresh backend the second application brings the
  failure counter from 1 to 2.
\<close>

theorem markDown_twice_differs:
  "markDown (markDown (newBackend 0 ''http://localhost:8081'')) \<noteq>
     markDown (newBackend 0 ''http://localhost:8081'')
   \<and> sint (failCount (markDown (markDown (newBackend 0 ''http://localhost:8081'')))) = 2
   \<and> sint (failCount (markDown (newBackend 0 ''http://localhost:8081''))) = 1"
  by (simp add: markDown_def newBackend_def)

text \<open>
  C6, as the code has it. \<open>markAlive\<close> is idempotent. \<open>markDown\<close> is idempotent on the
  liveness flag only: each application adds one to the failure counter, so applying it
  twice never yields the state of applying it once.
\<close>

theorem markAlive_idempotent_markDown_counts:
  "markAlive (markAlive b) = markAlive b
   \<and> IsAlive (markDown (markDown b)) = IsAlive (markDown b)
   \<and> failCount (markDown (markDown b)) = failCount (markDown b) + 1
   \<and> markDown (markDown b) \<noteq> markDown b"
proof -
  have "failCount (markDown (markDown b)) \<noteq> failCount (markDown b)"
    by (simp add: markDown_def)
  then have "markDown (markDown b) \<noteq> markDown b" by metis
  then show ?thesis by (simp add: markAlive_def markDown_def)
qed

text \<open>
  C7. For a pool of at least one backend the response of \<open>ServeHTTP\<close> is fixed by
  exactly one of four cases: 401 when \<open>ValidateJWT\<close> fails; 503 when it succeeds and
  \<open>getBackendForRequest\<close> finds no backend (it does not panic); 502, written by the
  proxy's error handler, when a backend was selected and forwarding fails in the
  transport; the backend's own response, relayed, otherwise. No backend is found exactly
  when no eligible backend is alive: for \<open>Admin\<close> when the first backend is down, for
  any other role when every backend is down; in these states the response is the 503, and
  a backend that is selected is alive (the first one for \<open>Admin\<close>).
\<close>

theorem serve_status:
  assumes "backends lb \<noteq> []"
  shows "(case ValidateJWT parse authorization of
       Inl err \<Rightarrow>
         fst (ServeHTTP parse forward authorization lb) =
           Inr \<lparr>status = 401, body = ''Invalid or missing JWT token''\<rparr>
     | Inr role \<Rightarrow>
         (case fst (getBackendForRequest role lb) of
            Inl e \<Rightarrow>
              e = NoBackendAvailable \<and>
              fst (ServeHTTP parse forward authorization lb) =
                Inr \<lparr>status = 503, body = ''No available backend servers''\<rparr>
          | Inr idx \<Rightarrow>
              (case forward idx of
                 TransportError \<Rightarrow>
                   fst (ServeHTTP parse forward authorization lb) = Inr (errorHandler idx)
                   \<and> status (errorHandler idx) = 502
               | Relayed r \<Rightarrow> fst (ServeHTTP parse forward authorization lb) = Inr r)))
    \<and> (ValidateJWT parse authorization = Inr ''Admin'' \<and> \<not> IsAlive (backends lb ! 0) \<longrightarrow>
         fst (ServeHTTP parse forward authorization lb) =
           Inr \<lparr>status = 503, body = ''No available backend servers''\<rparr>)
    \<and> (\<forall>role. ValidateJWT parse authorization = Inr role \<and> role \<noteq> ''Admin''
           \<and> (\<forall>b \<in> set (backends lb). \<not> IsAlive b) \<longrightarrow>
         fst (ServeHTTP parse forward authorization lb) =
           Inr \<lparr>status = 503, body = ''No available backend servers''\<rparr>)
    \<and> (\<forall>role. ValidateJWT parse authorization = Inr role \<longrightarrow>
         (fst (getBackendForRequest role lb) = Inl NoBackendAvailable) =
           (if role = ''Admin'' then \<not> IsAlive (backends lb ! 0)
            else (\<forall>b \<in> set (backends lb). \<not> IsAlive b)))
    \<and> (\<forall>role idx. ValidateJWT parse authorization = Inr role
           \<and> fst (getBackendForRequest role lb) = Inr idx \<longrightarrow>
         idx < length (backends lb) \<and> IsAlive (backends lb ! idx)
         \<and> (role = ''Admin'' \<longrightarrow> idx = 0)
         \<and> fst (ServeHTTP parse forward authorization lb) = Inr (proxyServeHTTP forward idx))"
proof -
  let ?r503 = "Inr \<lparr>status = 503, body = ''No available backend servers''\<rparr> :: route_error + response"
  have none: "(fst (getBackendForRequest role lb) = Inl NoBackendAvailable) =
      (if role = ''Admin'' then \<not> IsAlive (backends lb ! 0)
       else (\<forall>b \<in> set (backends lb). \<not> IsAlive b))" for role
    using assms by (simp add: route_admin route_nonadmin_none)
  have nopanic: "e = NoBackendAvailable" if "fst (getBackendForRequest role lb) = Inl e" for role e
  proof (cases "role = ''Admin''")
    case True
    with that assms show ?thesis by (simp add: route_admin split: if_splits)
  next
    case False
    with route_nonadmin_cases [OF False assms] that show ?thesis by auto
  qed
  have s503: "fst (ServeHTTP parse forward authorization lb) = ?r503"
    if "ValidateJWT parse authorization = Inr role"
      and "fst (getBackendForRequest role lb) = Inl NoBackendAvailable" for role
    using that by (simp add: ServeHTTP_result)
  have sel: "fst (ServeHTTP parse forward authorization lb) = Inr (proxyServeHTTP forward idx)"
    if "ValidateJWT parse authorization = Inr role"
      and "fst (getBackendForRequest role lb) = Inr idx" for role idx
    using that by (simp add: ServeHTTP_result)
  have c1: "(case ValidateJWT parse authorization of
       Inl err \<Rightarrow>
         fst (ServeHTTP parse forward authorization lb) =
           Inr \<lparr>status = 401, body = ''Invalid or missing JWT token''\<rparr>
     | Inr role \<Rightarrow>
         (case fst (getBackendForRequest role lb) of
            Inl e \<Rightarrow>
              e = NoBackendAvailable \<and>
              fst (ServeHTTP parse forward authorization lb) = ?r503
          | Inr idx \<Rightarrow>
              (case forward idx of
                 TransportError \<Rightarrow>
                   fst (ServeHTTP parse forward authorization lb) = Inr (errorHandler idx)
                   \<and> status (errorHandler idx) = 502
               | Relayed r \<Rightarrow> fst (ServeHTTP parse forward authorization lb) = Inr r)))"
  proof (cases "ValidateJWT parse authorization")
    case (Inl err)
    then show ?thesis by (simp add: ServeHTTP_result)
  next
    case (Inr role)
    show ?thesis
    proof (cases "fst (getBackendForRequest role lb)")
      case (Inl e)
      with nopanic [OF Inl] s503 [OF Inr] Inr show ?thesis by simp
    next
      case route: (Inr idx)
      with sel [OF Inr route] Inr show ?thesis
        by (simp add: proxyServeHTTP_def errorHandler_def split: forward_result.splits)
    qed
  qed
  have c2: "ValidateJWT parse authorization = Inr ''Admin'' \<and> \<not> IsAlive (backends lb ! 0) \<longrightarrow>
      fst (ServeHTTP parse forward authorization lb) = ?r503"
    using s503 [of "''Admin''"] none [of "''Admin''"] by simp
  have c3: "\<forall>role. ValidateJWT parse authorization = Inr role \<and> role \<noteq> ''Admin''
      \<and> (\<forall>b \<in> set (backends lb). \<not> IsAlive b) \<longrightarrow>
      fst (ServeHTTP parse forward authorization lb) = ?r503"
    using s503 none by simp
  have c4: "\<forall>role. ValidateJWT parse authorization = Inr role \<longrightarrow>
      (fst (getBackendForRequest role lb) = Inl NoBackendAvailable) =
        (if role = ''Admin'' then \<not> IsAlive (backends lb ! 0)
         else (\<forall>b \<in> set (backends lb). \<not> IsAlive b))"
    using none by blast
  have c5: "\<forall>role idx. ValidateJWT parse authorization = Inr role
      \<and> fst (getBackendForRequest role lb) = Inr idx \<longrightarrow>
      idx < length (backends lb) \<and> IsAlive (backends lb ! idx)
      \<and> (role = ''Admin'' \<longrightarrow> idx = 0)
      \<and> fst (ServeHTTP parse forward authorization lb) = Inr (proxyServeHTTP forward idx)"
  proof (intro allI impI, elim conjE)
    fix role idx
    assume v: "ValidateJWT parse authorization = Inr role"
      and g: "fst (getBackendForRequest role lb) = Inr idx"
    have "role = ''Admin'' \<longrightarrow> idx = 0"
      using g assms by (auto simp: route_admin split: if_splits)
    with route_selected_alive [OF assms g] sel [OF v g]
    show "idx < length (backends lb) \<and> IsAlive (backends lb ! idx)
      \<and> (role = ''Admin'' \<longrightarrow> idx = 0)
      \<and> fst (ServeHTTP parse forward authorization lb) = Inr (proxyServeHTTP forward idx)"
      by simp
  qed
  from c1 c2 c3 c4 c5 show ?thesis by (intro conjI)
qed


theorem serve_status_witness:
  "backends allDownPool \<noteq> [] \<and> backends adminDownPool \<noteq> [] \<and> backends defaultPool \<noteq> []
   \<and> ValidateJWT tokenParse [] = Inl ''no token provided''
   \<and> fst (ServeHTTP tokenParse backendsAnswer [] defaultPool) =
       Inr \<lparr>status = 401, body = ''Invalid or missing JWT token''\<rparr>
   \<and> ValidateJWT tokenParse ''Bearer user-token'' = Inr ''User''
   \<and> \<not> IsAlive (backends allDownPool ! 0) \<and> \<not> IsAlive (backends allDownPool ! 1)
   \<and> \<not> IsAlive (backends allDownPool ! 2)
   \<and> fst (ServeHTTP tokenParse backendsAnswer ''Bearer user-token'' allDownPool) =
       Inr \<lparr>status = 503, body = ''No available backend servers''\<rparr>
   \<and> ValidateJWT tokenParse ''Bearer admin-token'' = Inr ''Admin''
   \<and> \<not> IsAlive (backends adminDownPool ! 0) \<and> IsAlive (backends adminDownPool ! 1)
   \<and> fst (ServeHTTP tokenParse backendsAnswer ''Bearer admin-token'' adminDownPool) =
       Inr \<lparr>status = 503, body = ''No available backend servers''\<rparr>
   \<and> fst (getBackendForRequest ''User'' defaultPool) = Inr 1
   \<and> backendsUnreachable 1 = TransportError
   \<and> fst (ServeHTTP tokenParse backendsUnreachable ''Bearer user-token'' defaultPool) =
       Inr (errorHandler 1)
   \<and> status (errorHandler 1) = 502
   \<and> fst (ServeHTTP tokenParse backendsAnswer ''Bearer user-token'' defaultPool) =
       Inr \<lparr>status = 200, body = ''Response from Backend 2''\<rparr>"
proof -
  have n: "backends defaultPool \<noteq> []" by (simp add: defaultPool_def)
  have nd: "backends allDownPool \<noteq> []" by (simp add: allDownPool_def healthCheckTick_def defaultPool_def)
  have na: "backends adminDownPool \<noteq> []"
    by (simp add: adminDownPool_def healthCheckTick_def defaultPool_def)
  have e: "ValidateJWT tokenParse [] = Inl ''no token provided''"
    by (simp add: ValidateJWT_def)
  have v: "ValidateJWT tokenParse ''Bearer user-token'' = Inr ''User''"
    by (simp add: ValidateJWT_def trimBearer_def tokenParse_def)
  have va: "ValidateJWT tokenParse ''Bearer admin-token'' = Inr ''Admin''"
    by (simp add: ValidateJWT_def trimBearer_def tokenParse_def)
  have bd: "backends allDownPool =
     [markDown (newBackend 0 ''http://localhost:8081''), markDown (newBackend 1 ''http://localhost:8082''),
      markDown (newBackend 2 ''http://localhost:8083'')]"
    by (simp add: allDownPool_def healthCheckTick_def defaultPool_def checkBackend_def
        probesFail_def probeFailed_def enumerate_eq_zip upt_rec)
  have d: "\<forall>b \<in> set (backends allDownPool). \<not> IsAlive b"
    by (simp add: bd markDown_def)
  have d0: "\<not> IsAlive (backends allDownPool ! 0)" and d1: "\<not> IsAlive (backends allDownPool ! 1)"
    and d2: "\<not> IsAlive (backends allDownPool ! 2)"
    by (simp_all add: bd markDown_def)
  have ba: "backends adminDownPool =
     [markDown (newBackend 0 ''http://localhost:8081''), markAlive (newBackend 1 ''http://localhost:8082''),
      markAlive (newBackend 2 ''http://localhost:8083'')]"
    by (simp add: adminDownPool_def healthCheckTick_def defaultPool_def checkBackend_def
        firstProbeFails_def probeFailed_def enumerate_eq_zip upt_rec)
  have a0: "\<not> IsAlive (backends adminDownPool ! 0)" and a1: "IsAlive (backends adminDownPool ! 1)"
    by (simp_all add: ba markDown_def markAlive_def)
  have g: "fst (getBackendForRequest ''User'' defaultPool) = Inr 1"
    by (simp add: getBackendForRequest_def Let_def nextIndex_def scanIndex_def defaultPool_def
        newBackend_def scanBackends.simps)
  have t: "backendsUnreachable 1 = TransportError" by (simp add: backendsUnreachable_def)
  have k: "backendsAnswer 1 = Relayed \<lparr>status = 200, body = ''Response from Backend 2''\<rparr>"
    by (simp add: backendsAnswer_def decimal.simps digit_def)
  have w401: "fst (ServeHTTP tokenParse backendsAnswer [] defaultPool) =
       Inr \<lparr>status = 401, body = ''Invalid or missing JWT token''\<rparr>"
    using serve_status [OF n, where parse = tokenParse and authorization = "[]"
      and forward = backendsAnswer] e by simp
  have w503: "fst (ServeHTTP tokenParse backendsAnswer ''Bearer user-token'' allDownPool) =
       Inr \<lparr>status = 503, body = ''No available backend servers''\<rparr>"
    using serve_status [OF nd, where parse = tokenParse and authorization = "''Bearer user-token''"
      and forward = backendsAnswer] v d by simp
  have w503a: "fst (ServeHTTP tokenParse backendsAnswer ''Bearer admin-token'' adminDownPool) =
       Inr \<lparr>status = 503, body = ''No available backend servers''\<rparr>"
    using serve_status [OF na, where parse = tokenParse and authorization = "''Bearer admin-token''"
      and forward = backendsAnswer] va a0 by simp
  have w502: "fst (ServeHTTP tokenParse backendsUnreachable ''Bearer user-token'' defaultPool) =
       Inr (errorHandler 1) \<and> status (errorHandler 1) = 502"
    using serve_status [OF n, where parse = tokenParse and authorization = "''Bearer user-token''"
      and forward = backendsUnreachable] v g t by simp
  have w200: "fst (ServeHTTP tokenParse backendsAnswer ''Bearer user-token'' defaultPool) =
       Inr \<lparr>status = 200, body = ''Response from Backend 2''\<rparr>"
    using serve_status [OF n, where parse = tokenParse and authorization = "''Bearer user-token''"
      and forward = backendsAnswer] v g k by simp
  from n nd na e v va d0 d1 d2 a0 a1 g t w401 w503 w503a w502 w200 show ?thesis by simp
qed

text \<open>
  C8. Routing writes no liveness: for every role and every state,
  \<open>getBackendForRequest\<close> leaves every backend's \<open>IsAlive\<close> and \<open>failCount\<close> as they
  were, and so does the whole of \<open>ServeHTTP\<close>, which adds the served-request count;
  only \<open>markDown\<close> and \<open>markAlive\<close> in the health check write them.
\<close>

theorem route_writes_no_liveness:
  "map IsAlive (backends (snd (getBackendForRequest role lb))) = map IsAlive (backends lb)
   \<and> map failCount (backends (snd (getBackendForRequest role lb))) = map failCount (backends lb)
   \<and> map IsAlive (backends (snd (ServeHTTP parse forward authorization lb))) =
       map IsAlive (backends lb)
   \<and> map failCount (backends (snd (ServeHTTP parse forward authorization lb))) =
       map failCount (backends lb)"
  by (simp add: route_backends ServeHTTP_map)

text \<open>
  C9. For a pool of at least one backend every position computed while routing is inside
  the pool: the start index for every value \<open>c\<close> of the 64-bit cursor, every scanned
  index, and position 0 of the \<open>Admin\<close> branch; \<open>getBackendForRequest\<close> raises no
  index or division panic and returns only positions of the pool.
\<close>

theorem route_indices_in_bounds:
  assumes "backends lb \<noteq> []"
  shows "nextIndex c (length (backends lb)) < length (backends lb)
    \<and> scanIndex (nextIndex c (length (backends lb))) i (length (backends lb)) < length (backends lb)
    \<and> fst (getBackendForRequest role lb) \<noteq> Inl PanicIndexOutOfRange
    \<and> fst (getBackendForRequest role lb) \<noteq> Inl PanicDivideByZero
    \<and> (\<forall>idx. fst (getBackendForRequest role lb) = Inr idx \<longrightarrow> idx < length (backends lb))
    \<and> (role = ''Admin'' \<longrightarrow> (\<forall>idx. fst (getBackendForRequest role lb) = Inr idx \<longrightarrow> idx = 0))"
proof -
  have n: "0 < length (backends lb)" using assms by simp
  have r: "fst (getBackendForRequest role lb) \<noteq> Inl PanicIndexOutOfRange
    \<and> fst (getBackendForRequest role lb) \<noteq> Inl PanicDivideByZero
    \<and> (\<forall>idx. fst (getBackendForRequest role lb) = Inr idx \<longrightarrow> idx < length (backends lb))
    \<and> (role = ''Admin'' \<longrightarrow> (\<forall>idx. fst (getBackendForRequest role lb) = Inr idx \<longrightarrow> idx = 0))"
  proof (cases "role = ''Admin''")
    case True
    with n show ?thesis by (simp add: getBackendForRequest_def)
  next
    case False
    with route_nonadmin_cases [OF False assms] show ?thesis by auto
  qed
  from nextIndex_less [OF n] scanIndex_less [OF n] r show ?thesis by simp
qed

theorem route_indices_in_bounds_witness:
  "backends defaultPool \<noteq> []
   \<and> nextIndex (- 1) (length (backends defaultPool)) < length (backends defaultPool)
   \<and> scanIndex (nextIndex (- 1) (length (backends defaultPool))) 2 (length (backends defaultPool))
       < length (backends defaultPool)
   \<and> fst (getBackendForRequest ''User'' (defaultPool\<lparr>roundRobinCount := - 1\<rparr>)) \<noteq> Inl PanicIndexOutOfRange"
proof -
  have n: "backends (defaultPool\<lparr>roundRobinCount := - 1\<rparr>) \<noteq> []" by (simp add: defaultPool_def)
  from route_indices_in_bounds [OF n, of "- 1" 2 "''User''"] n show ?thesis by simp
qed

text \<open>
  C10. Routing an \<open>Admin\<close> request leaves the round-robin cursor as it was, whether a
  backend is returned or not; routing with any other role adds one to it.
\<close>

theorem privileged_route_keeps_cursor:
  "roundRobinCount (snd (getBackendForRequest role lb)) =
     (if role = ''Admin'' then roundRobinCount lb else roundRobinCount lb + 1)"
  by (simp add: getBackendForRequest_def Let_def)

end
